theory Spec2Isabelle
  imports Main "HOL-Library.Sublist"
begin

section \<open>JavaScript values\<close>

text \<open>
  The configuration of a tool is whatever \<open>yaml.load\<close> returned (the cast
  \<open>as SkipConfig\<close> checks nothing at run time), so it is modelled as a JavaScript
  value. Numbers are the integers; an object is its list of own properties.
\<close>

datatype jsval =
    JUndefined
  | JNull
  | JBool bool
  | JNum int
  | JStr string
  | JArr "jsval list"
  | JObj "(string \<times> jsval) list"

datatype js_error = Error string | TypeError

text \<open>ToBoolean.\<close>

fun truthy :: "jsval \<Rightarrow> bool" where
  "truthy JUndefined = False"
| "truthy JNull = False"
| "truthy (JBool b) = b"
| "truthy (JNum n) = (n \<noteq> 0)"
| "truthy (JStr s) = (s \<noteq> [])"
| "truthy (JArr xs) = True"
| "truthy (JObj kvs) = True"

text \<open>
  \<open>v?.k\<close> for the property names the program reads (\<open>depends_on\<close>, \<open>keywords\<close>,
  \<open>length\<close>). Every plain \<open>v.k\<close> of the source is on a value already found truthy, where
  it agrees with \<open>v?.k\<close>.
\<close>

fun get_prop :: "jsval \<Rightarrow> string \<Rightarrow> jsval" where
  "get_prop (JObj kvs) k = (case map_of kvs k of Some v \<Rightarrow> v | None \<Rightarrow> JUndefined)"
| "get_prop (JArr xs) k = (if k = ''length'' then JNum (int (length xs)) else JUndefined)"
| "get_prop (JStr s) k = (if k = ''length'' then JNum (int (length s)) else JUndefined)"
| "get_prop v k = JUndefined"

text \<open>\<open>typeof v === 'object' && v !== null\<close>\<close>

fun is_object :: "jsval \<Rightarrow> bool" where
  "is_object (JArr xs) = True"
| "is_object (JObj kvs) = True"
| "is_object v = False"

section \<open>JavaScript strings\<close>

text \<open>
  A string is its sequence of code units; the model covers the code units below 256
  (Latin-1), where \<open>char\<close> and the code unit coincide.
\<close>

definition nl :: char where
  "nl = CHR 0x0A"

definition dq :: char where
  "dq = CHR 0x22"

text \<open>The characters of \<open>\s\<close> and of \<open>trim\<close>: white space and line terminators.\<close>

definition isWhiteSpace :: "char \<Rightarrow> bool" where
  "isWhiteSpace c =
     (c \<in> set [CHR 0x09, CHR 0x0A, CHR 0x0B, CHR 0x0C, CHR 0x0D, CHR 0x20, CHR 0xA0])"

text \<open>The characters \<open>.\<close> does not match.\<close>

definition isLineTerminator :: "char \<Rightarrow> bool" where
  "isLineTerminator c = (c = CHR 0x0A \<or> c = CHR 0x0D)"

definition lower_char :: "char \<Rightarrow> char" where
  "lower_char c =
     (let n = (of_char c :: nat)
      in if (65 \<le> n \<and> n \<le> 90) \<or> (192 \<le> n \<and> n \<le> 222 \<and> n \<noteq> 215)
         then char_of (n + 32) else c)"

definition toLowerCase :: "string \<Rightarrow> string" where
  "toLowerCase s = map lower_char s"

definition trim :: "string \<Rightarrow> string" where
  "trim s = rev (dropWhile isWhiteSpace (rev (dropWhile isWhiteSpace s)))"

text \<open>\<open>s.startsWith(t)\<close> and \<open>s.includes(t)\<close>\<close>

fun startsWith :: "string \<Rightarrow> string \<Rightarrow> bool" where
  "startsWith s [] = True"
| "startsWith [] (y # ys) = False"
| "startsWith (x # xs) (y # ys) = (x = y \<and> startsWith xs ys)"

fun includes_str :: "string \<Rightarrow> string \<Rightarrow> bool" where
  "includes_str [] t = (t = [])"
| "includes_str (c # cs) t = (startsWith (c # cs) t \<or> includes_str cs t)"

text \<open>\<open>xs.join(sep)\<close> on an array of strings\<close>

fun join :: "string \<Rightarrow> string list \<Rightarrow> string" where
  "join sep [] = []"
| "join sep [x] = x"
| "join sep (x # y # ys) = x @ sep @ join sep (y # ys)"

text \<open>\<open>s.split(/\s+/)\<close>: the pieces between the maximal runs of white space.\<close>

function split_acc :: "string \<Rightarrow> string \<Rightarrow> string list" where
  "split_acc cur [] = [rev cur]"
| "split_acc cur (c # cs) =
     (if isWhiteSpace c then rev cur # split_acc [] (dropWhile isWhiteSpace cs)
      else split_acc (c # cur) cs)"
  by pat_completeness auto
termination
  by (relation "measure (\<lambda>(cur, s). length s)")
     (auto simp: le_imp_less_Suc length_dropWhile_le)

definition split_ws :: "string \<Rightarrow> string list" where
  "split_ws s = split_acc [] s"

text \<open>\<open>s.replace(pat, '')\<close> with a string pattern: the first occurrence is removed.\<close>

fun removeFirst :: "string \<Rightarrow> string \<Rightarrow> string" where
  "removeFirst [] pat = []"
| "removeFirst (c # cs) pat =
     (if startsWith (c # cs) pat then drop (length pat) (c # cs)
      else c # removeFirst cs pat)"

text \<open>Number to string, for the integers.\<close>

fun digits :: "nat \<Rightarrow> string" where
  "digits n =
     (if n < 10 then [char_of (48 + n)] else digits (n div 10) @ [char_of (48 + n mod 10)])"

declare digits.simps [simp del]

definition int_toString :: "int \<Rightarrow> string" where
  "int_toString i = (if i < 0 then CHR ''-'' # digits (nat (- i)) else digits (nat i))"

text \<open>ToString, as a template literal applies it.\<close>

fun js_toString :: "jsval \<Rightarrow> string" where
  "js_toString JUndefined = ''undefined''"
| "js_toString JNull = ''null''"
| "js_toString (JBool b) = (if b then ''true'' else ''false'')"
| "js_toString (JNum n) = int_toString n"
| "js_toString (JStr s) = s"
| "js_toString (JArr xs) =
     join '','' (map (\<lambda>x. if x = JUndefined \<or> x = JNull then [] else js_toString x) xs)"
| "js_toString (JObj kvs) = ''[object Object]''"

section \<open>The regular expression of the parser\<close>

text \<open>
  The regular expressions \<open>SKIP_YAML_REGEX\<close> is built from, and a backtracking matcher
  for them: every quantifier is greedy, and an iteration of \<open>*\<close> that consumes nothing
  is refused, as the language specifies.
\<close>

datatype rx =
    Eps
  | Lit char
  | Space
  | AnyChar
  | Seq rx rx
  | Opt rx
  | Star rx
  | Group rx

text \<open>
  What is left to match: a regular expression, the check that an iteration of a star
  made progress (with the length of the input when the iteration began), or the end of
  the capturing group (with the input at its beginning).
\<close>

datatype frame = Rx rx | Progress nat rx | Close string

fun rx_weight :: "rx \<Rightarrow> nat" where
  "rx_weight Eps = 1"
| "rx_weight (Lit c) = 1"
| "rx_weight Space = 1"
| "rx_weight AnyChar = 1"
| "rx_weight (Seq a b) = rx_weight a + rx_weight b + 1"
| "rx_weight (Opt a) = rx_weight a + 1"
| "rx_weight (Star a) = rx_weight a + 1"
| "rx_weight (Group a) = rx_weight a + 2"

fun frame_weight :: "nat \<Rightarrow> frame \<Rightarrow> nat" where
  "frame_weight l (Rx r) = rx_weight r"
| "frame_weight l (Progress n a) = (if l < n then rx_weight a + 2 else 0)"
| "frame_weight l (Close gs) = 1"

definition frames_weight :: "nat \<Rightarrow> frame list \<Rightarrow> nat" where
  "frames_weight l fs = sum_list (map (frame_weight l) fs)"

text \<open>
  \<open>run fs cap s\<close> matches the frames \<open>fs\<close> against the input \<open>s\<close>, \<open>cap\<close> being the text
  captured so far: the first success in backtracking order, as the captured text and the
  input left.
\<close>

function run :: "frame list \<Rightarrow> string option \<Rightarrow> string \<Rightarrow> (string option \<times> string) option" where
  "run [] cap s = Some (cap, s)"
| "run (Rx Eps # k) cap s = run k cap s"
| "run (Rx (Lit c) # k) cap s =
     (case s of [] \<Rightarrow> None | x # xs \<Rightarrow> if x = c then run k cap xs else None)"
| "run (Rx Space # k) cap s =
     (case s of [] \<Rightarrow> None | x # xs \<Rightarrow> if isWhiteSpace x then run k cap xs else None)"
| "run (Rx AnyChar # k) cap s =
     (case s of [] \<Rightarrow> None | x # xs \<Rightarrow> if isLineTerminator x then None else run k cap xs)"
| "run (Rx (Seq a b) # k) cap s = run (Rx a # Rx b # k) cap s"
| "run (Rx (Opt a) # k) cap s =
     (case run (Rx a # k) cap s of Some r \<Rightarrow> Some r | None \<Rightarrow> run k cap s)"
| "run (Rx (Star a) # k) cap s =
     (case run (Rx a # Progress (length s) a # k) cap s of
        Some r \<Rightarrow> Some r
      | None \<Rightarrow> run k cap s)"
| "run (Progress n a # k) cap s =
     (if length s < n then run (Rx (Star a) # k) cap s else None)"
| "run (Rx (Group a) # k) cap s = run (Rx a # Close s # k) cap s"
| "run (Close gs # k) cap s = run k (Some (take (length gs - length s) gs)) s"
  by pat_completeness auto
termination
  by (relation "inv_image (less_than <*lex*> less_than)
        (\<lambda>(fs, cap, s). (length s, frames_weight (length s) fs))")
     (auto simp: frames_weight_def)

text \<open>
  \<open>s.match(r)\<close> for a regular expression without flags: the match at the leftmost
  position that has one, as \<open>match[0]\<close> and \<open>match[1]\<close>.
\<close>

fun js_match :: "rx \<Rightarrow> string \<Rightarrow> (string \<times> string option) option" where
  "js_match r [] =
     (case run [Rx r] None [] of
        Some (cap, rest) \<Rightarrow> Some ([], cap)
      | None \<Rightarrow> None)"
| "js_match r (c # cs) =
     (case run [Rx r] None (c # cs) of
        Some (cap, rest) \<Rightarrow> Some (take (length (c # cs) - length rest) (c # cs), cap)
      | None \<Rightarrow> js_match r cs)"

fun lits :: "string \<Rightarrow> rx" where
  "lits [] = Eps"
| "lits (c # cs) = Seq (Lit c) (lits cs)"

definition plus :: "rx \<Rightarrow> rx" where
  "plus a = Seq a (Star a)"

text \<open>\<open>/\n\s*skip:\s*\n((?:\s+.+\n?)*)/\<close>\<close>

definition SKIP_YAML_REGEX :: rx where
  "SKIP_YAML_REGEX =
     Seq (Lit nl) (Seq (Star Space) (Seq (lits ''skip:'') (Seq (Star Space) (Seq (Lit nl)
       (Group (Star (Seq (plus Space) (Seq (plus AnyChar) (Opt (Lit nl))))))))))"

section \<open>The data model (types.ts)\<close>

record Tool =
  name :: string
  description :: string
  skip :: jsval

record ParsedTool = Tool +
  originalDescription :: string
  cleanDescription :: string

datatype Role = System | Developer | User | Assistant | ToolRole | FunctionRole

text \<open>A content part: its \<open>type\<close> and, when it has one, its \<open>text\<close>.\<close>

datatype ContentPart = Part string "string option"

datatype Content = NoContent | Text string | Parts "ContentPart list"

text \<open>\<open>tool_calls\<close> is \<open>None\<close> when the message has no such property.\<close>

record Message =
  role :: Role
  content :: Content
  tool_calls :: "string list option"

record FilterOptions =
  messages :: "Message list"
  maxTools :: "int option"
  onlyNewMessages :: "bool option"

record FilterResult =
  tools :: "ParsedTool list"
  totalOriginalCount :: nat
  filteredCount :: nat
  reason :: string
  messagesProcessed :: nat

section \<open>The parser (parser.ts)\<close>

text \<open>
  \<open>yaml.load\<close> is the library's, so the parser takes it as the parameter \<open>yaml_load\<close>:
  the value loaded, or the exception thrown, as \<open>${error}\<close> prints it. The result
  of \<open>parseToolDescription\<close> also holds what it wrote with \<open>console.warn\<close>. The
  group of the regular expression takes part in every match, so \<open>match[1]\<close> is a string.
\<close>

record ParseResult =
  clean :: string
  skipConfig :: jsval
  warned :: "string list"

definition parse_failed :: "string \<Rightarrow> string \<Rightarrow> ParseResult" where
  "parse_failed cleaned err =
     \<lparr>clean = cleaned, skipConfig = JUndefined,
      warned = [''Failed to parse skip configuration: '' @ err]\<rparr>"

definition parseToolDescription :: "(string \<Rightarrow> string + jsval) \<Rightarrow> string \<Rightarrow> ParseResult" where
  "parseToolDescription yaml_load descr =
     (case js_match SKIP_YAML_REGEX descr of
        None \<Rightarrow> \<lparr>clean = trim descr, skipConfig = JUndefined, warned = []\<rparr>
      | Some (m0, m1) \<Rightarrow>
          (let yamlContent = (case m1 of Some c \<Rightarrow> c | None \<Rightarrow> []);
               cleaned = trim (removeFirst descr m0)
           in case yaml_load yamlContent of
                Inl err \<Rightarrow> parse_failed cleaned err
              | Inr v \<Rightarrow>
                  if \<not> is_object v
                  then parse_failed cleaned ''Error: Invalid skip configuration format''
                  else \<lparr>clean = cleaned, skipConfig = v, warned = []\<rparr>))"

definition parseTool :: "(string \<Rightarrow> string + jsval) \<Rightarrow> Tool \<Rightarrow> ParsedTool" where
  "parseTool yaml_load tool =
     (let r = parseToolDescription yaml_load (description tool)
      in \<lparr>name = name tool, description = description tool,
          skip = (if truthy (skipConfig r) then skipConfig r else skip tool),
          originalDescription = description tool,
          cleanDescription = clean r\<rparr>)"

text \<open>The parsed tools, and the lines written to the console.\<close>

definition parseTools :: "(string \<Rightarrow> string + jsval) \<Rightarrow> Tool list \<Rightarrow> ParsedTool list \<times> string list" where
  "parseTools yaml_load ts =
     (map (parseTool yaml_load) ts,
      concat (map (\<lambda>tool. warned (parseToolDescription yaml_load (description tool))) ts))"

definition validateSkipConfig :: "jsval \<Rightarrow> bool" where
  "validateSkipConfig config =
     (if \<not> is_object config then False
      else if truthy (get_prop config ''depends_on'')
              \<and> (case get_prop config ''depends_on'' of JArr xs \<Rightarrow> False | _ \<Rightarrow> True)
      then False
      else if truthy (get_prop config ''keywords'')
              \<and> (case get_prop config ''keywords'' of JArr xs \<Rightarrow> False | _ \<Rightarrow> True)
      then False
      else True)"

section \<open>The engine (class SkipTools)\<close>

record SkipTools =
  parsedTools :: "ParsedTool list"
  lastProcessedMessageCount :: nat

subsection \<open>validateDependencies and the constructor\<close>

definition not_found_message :: "string \<Rightarrow> string \<Rightarrow> string" where
  "not_found_message toolName depName =
     ''Tool '' @ [dq] @ toolName @ [dq] @ '' depends on '' @ [dq] @ depName @ [dq]
       @ '' which is not found in the provided tools list.''
       @ '' Dependencies must reference other tools in the same list.''"

text \<open>\<open>toolNames.has(v)\<close>: the set holds strings only.\<close>

fun has_name :: "string list \<Rightarrow> jsval \<Rightarrow> bool" where
  "has_name names (JStr s) = (s \<in> set names)"
| "has_name names v = False"

fun check_deps :: "string list \<Rightarrow> string \<Rightarrow> jsval list \<Rightarrow> js_error + unit" where
  "check_deps toolNames toolName [] = Inr ()"
| "check_deps toolNames toolName (depName # rest) =
     (if \<not> has_name toolNames depName
      then Inl (Error (not_found_message toolName (js_toString depName)))
      else check_deps toolNames toolName rest)"

text \<open>
  \<open>depends_on.forEach\<close> exists on an array only: on any other truthy value the call
  throws a TypeError.
\<close>

definition check_tool :: "string list \<Rightarrow> ParsedTool \<Rightarrow> js_error + unit" where
  "check_tool toolNames tool =
     (let d = get_prop (skip tool) ''depends_on''
      in if truthy d
         then (case d of JArr deps \<Rightarrow> check_deps toolNames (name tool) deps | _ \<Rightarrow> Inl TypeError)
         else Inr ())"

fun check_tools :: "string list \<Rightarrow> ParsedTool list \<Rightarrow> js_error + unit" where
  "check_tools toolNames [] = Inr ()"
| "check_tools toolNames (tool # rest) =
     (case check_tool toolNames tool of
        Inl e \<Rightarrow> Inl e
      | Inr u \<Rightarrow> check_tools toolNames rest)"

definition validateDependencies :: "SkipTools \<Rightarrow> js_error + unit" where
  "validateDependencies this = check_tools (map name (parsedTools this)) (parsedTools this)"

text \<open>\<open>new SkipTools(tools)\<close>: the engine or the exception, and the console.\<close>

definition new_SkipTools :: "(string \<Rightarrow> string + jsval) \<Rightarrow> Tool list \<Rightarrow> (js_error + SkipTools) \<times> string list" where
  "new_SkipTools yaml_load ts =
     (let this = \<lparr>parsedTools = fst (parseTools yaml_load ts), lastProcessedMessageCount = 0\<rparr>
      in (case validateDependencies this of Inl e \<Rightarrow> Inl e | Inr u \<Rightarrow> Inr this,
          snd (parseTools yaml_load ts)))"

subsection \<open>extractQueryFromMessages\<close>

text \<open>\<open>parts.join(' ')\<close> on the texts of the parts: a missing text prints as nothing.\<close>

definition part_text :: "ContentPart \<Rightarrow> string" where
  "part_text p = (case p of Part ty None \<Rightarrow> [] | Part ty (Some t) \<Rightarrow> t)"

definition part_is_text :: "ContentPart \<Rightarrow> bool" where
  "part_is_text p = (case p of Part ty t \<Rightarrow> ty = ''text'')"

fun extractTextFromContent :: "Content \<Rightarrow> string option" where
  "extractTextFromContent (Text s) = Some s"
| "extractTextFromContent (Parts ps) = Some (join '' '' (map part_text (filter part_is_text ps)))"
| "extractTextFromContent NoContent = None"

text \<open>\<open>msg.content\<close> as a condition: an array is truthy, also when empty.\<close>

fun content_truthy :: "Content \<Rightarrow> bool" where
  "content_truthy (Text s) = (s \<noteq> [])"
| "content_truthy (Parts ps) = True"
| "content_truthy NoContent = False"

definition nonTool :: "Message \<Rightarrow> bool" where
  "nonTool msg =
     (if role msg = ToolRole then False
      else if role msg = Assistant \<and> tool_calls msg \<noteq> None then False
      else True)"

definition text_kept :: "string option \<Rightarrow> bool" where
  "text_kept t = (case t of None \<Rightarrow> False | Some s \<Rightarrow> s \<noteq> [] \<and> 0 < length (trim s))"

definition textContent :: "Message list \<Rightarrow> string" where
  "textContent messagesToProcess =
     join '' ''
       (map (\<lambda>t. case t of Some s \<Rightarrow> trim s | None \<Rightarrow> [])
         (filter text_kept
           (map (\<lambda>msg. extractTextFromContent (content msg))
             (filter (\<lambda>msg. content_truthy (content msg))
               (filter nonTool messagesToProcess)))))"

record ExtractedQuery =
  query :: string
  processed :: nat

definition extractQueryFromMessages :: "SkipTools \<Rightarrow> Message list \<Rightarrow> bool \<Rightarrow> ExtractedQuery" where
  "extractQueryFromMessages this msgs onlyNew =
     (let messagesToProcess =
            (if onlyNew then drop (lastProcessedMessageCount this) msgs else msgs)
      in \<lparr>query = textContent messagesToProcess, processed = length msgs\<rparr>)"

subsection \<open>filterByKeywords\<close>

text \<open>\<open>xs.filter(p)\<close> and \<open>xs.some(p)\<close> for a callback that may throw.\<close>

fun filter_throwing :: "('a \<Rightarrow> js_error + bool) \<Rightarrow> 'a list \<Rightarrow> js_error + 'a list" where
  "filter_throwing p [] = Inr []"
| "filter_throwing p (x # xs) =
     (case p x of
        Inl e \<Rightarrow> Inl e
      | Inr b \<Rightarrow>
          (case filter_throwing p xs of
             Inl e \<Rightarrow> Inl e
           | Inr ys \<Rightarrow> Inr (if b then x # ys else ys)))"

fun some_throwing :: "('a \<Rightarrow> js_error + bool) \<Rightarrow> 'a list \<Rightarrow> js_error + bool" where
  "some_throwing p [] = Inr False"
| "some_throwing p (x # xs) =
     (case p x of
        Inl e \<Rightarrow> Inl e
      | Inr b \<Rightarrow> if b then Inr True else some_throwing p xs)"

definition word_matches :: "string \<Rightarrow> string \<Rightarrow> bool" where
  "word_matches keywordLower word =
     (2 < length word \<and>
       (includes_str keywordLower word \<or> includes_str word keywordLower
        \<or> startsWith keywordLower word \<or> startsWith word keywordLower))"

text \<open>The callback of \<open>keywords.some\<close>: \<open>toLowerCase\<close> exists on a string only.\<close>

definition keyword_test :: "string \<Rightarrow> string list \<Rightarrow> jsval \<Rightarrow> js_error + bool" where
  "keyword_test queryLower queryWords keyword =
     (case keyword of
        JStr kw \<Rightarrow>
          (let keywordLower = toLowerCase kw
           in if includes_str queryLower keywordLower then Inr True
              else Inr (list_ex (word_matches keywordLower) queryWords))
      | _ \<Rightarrow> Inl TypeError)"

text \<open>The callback of \<open>tools.filter\<close>: \<open>some\<close> exists on an array only.\<close>

definition tool_test :: "string \<Rightarrow> string list \<Rightarrow> ParsedTool \<Rightarrow> js_error + bool" where
  "tool_test queryLower queryWords tool =
     (let kws = get_prop (skip tool) ''keywords''
      in if \<not> truthy kws \<or> get_prop kws ''length'' = JNum 0 then Inr True
         else (case kws of
                 JArr ks \<Rightarrow> some_throwing (keyword_test queryLower queryWords) ks
               | _ \<Rightarrow> Inl TypeError))"

definition filterByKeywords :: "ParsedTool list \<Rightarrow> string \<Rightarrow> js_error + ParsedTool list" where
  "filterByKeywords ts q =
     (let queryLower = toLowerCase q;
          queryWords = filter (\<lambda>word. 2 < length word) (split_ws queryLower)
      in filter_throwing (tool_test queryLower queryWords) ts)"

subsection \<open>addDependencies\<close>

text \<open>The elements the second loop adds to \<open>resultTools\<close>.\<close>

fun added_deps :: "ParsedTool list \<Rightarrow> js_error + jsval list" where
  "added_deps [] = Inr []"
| "added_deps (tool # rest) =
     (let d = get_prop (skip tool) ''depends_on''
      in if truthy d
         then (case d of
                 JArr deps \<Rightarrow>
                   (case added_deps rest of Inl e \<Rightarrow> Inl e | Inr others \<Rightarrow> Inr (deps @ others))
               | _ \<Rightarrow> Inl TypeError)
         else added_deps rest)"

definition addDependencies :: "SkipTools \<Rightarrow> ParsedTool list \<Rightarrow> js_error + ParsedTool list" where
  "addDependencies this filteredTools =
     (case added_deps filteredTools of
        Inl e \<Rightarrow> Inl e
      | Inr deps \<Rightarrow>
          (let resultTools = map (\<lambda>tool. JStr (name tool)) filteredTools @ deps
           in Inr (filter (\<lambda>tool. JStr (name tool) \<in> set resultTools) (parsedTools this))))"

subsection \<open>generateFilterReason and filter\<close>

definition onlyNew_of :: "FilterOptions \<Rightarrow> bool" where
  "onlyNew_of options = (case onlyNewMessages options of None \<Rightarrow> False | Some b \<Rightarrow> b)"

definition generateFilterReason :: "SkipTools \<Rightarrow> FilterOptions \<Rightarrow> nat \<Rightarrow> string" where
  "generateFilterReason this options resultCount =
     (let reasons =
            (if 0 < length (messages options)
             then [''filtered by keywords from ''
                    @ int_toString
                        (if onlyNew_of options
                         then max 0 (int (length (messages options))
                                       - int (lastProcessedMessageCount this))
                         else int (length (messages options)))
                    @ '' '' @ (if onlyNew_of options then ''new'' else ''all'')
                    @ '' messages, dependencies added'']
             else [])
            @ (case maxTools options of
                 None \<Rightarrow> []
               | Some m \<Rightarrow>
                   if m \<noteq> 0 \<and> int resultCount = m
                   then [''limited to '' @ int_toString m @ '' tools''] else [])
      in if 0 < length reasons then join '', '' reasons else ''no filters applied'')"

text \<open>\<open>xs.slice(0, m)\<close>: a negative \<open>m\<close> counts from the end.\<close>

definition slice0 :: "'a list \<Rightarrow> int \<Rightarrow> 'a list" where
  "slice0 xs m = (if m < 0 then take (nat (int (length xs) + m)) xs else take (nat m) xs)"

definition limitTools :: "int option \<Rightarrow> ParsedTool list \<Rightarrow> ParsedTool list" where
  "limitTools mt filteredTools =
     (case mt of
        None \<Rightarrow> filteredTools
      | Some m \<Rightarrow>
          if m \<noteq> 0 \<and> m < int (length filteredTools) then slice0 filteredTools m
          else filteredTools)"

text \<open>
  \<open>filter(options)\<close>: the engine after the call, which has the new count also when the
  call throws later, and the result or the exception.
\<close>

definition filter_tools :: "SkipTools \<Rightarrow> FilterOptions \<Rightarrow> SkipTools \<times> (js_error + FilterResult)" where
  "filter_tools this options =
     (let extractedQuery = extractQueryFromMessages this (messages options) (onlyNew_of options);
          this' = this\<lparr>lastProcessedMessageCount := length (messages options)\<rparr>
      in (this',
          case (if query extractedQuery \<noteq> []
                then filterByKeywords (parsedTools this') (query extractedQuery)
                else Inr (parsedTools this')) of
            Inl e \<Rightarrow> Inl e
          | Inr matched \<Rightarrow>
              (case addDependencies this' matched of
                 Inl e \<Rightarrow> Inl e
               | Inr expanded \<Rightarrow>
                   (let filteredTools = limitTools (maxTools options) expanded
                    in Inr \<lparr>tools = filteredTools,
                            totalOriginalCount = length (parsedTools this'),
                            filteredCount = length filteredTools,
                            reason = generateFilterReason this' options (length filteredTools),
                            messagesProcessed = processed extractedQuery\<rparr>))))"

text \<open>The engine after a sequence of calls.\<close>

fun filter_calls :: "SkipTools \<Rightarrow> FilterOptions list \<Rightarrow> SkipTools" where
  "filter_calls this [] = this"
| "filter_calls this (options # rest) = filter_calls (fst (filter_tools this options)) rest"

text \<open>\<open>getAllTools()\<close> copies the array.\<close>

definition getAllTools :: "SkipTools \<Rightarrow> ParsedTool list" where
  "getAllTools this = parsedTools this"

section \<open>What the statements below speak of\<close>

text \<open>
  The declared type of a configuration is \<open>{depends_on?: string[], keywords?: string[]}\<close>.
  A tool has a list of keywords when \<open>keywords\<close> is an array of strings; it has none when
  \<open>keywords\<close> is missing (or any other falsy value).
\<close>

fun is_JStr :: "jsval \<Rightarrow> bool" where
  "is_JStr (JStr s) = True"
| "is_JStr v = False"

fun strings_in :: "jsval list \<Rightarrow> string list" where
  "strings_in [] = []"
| "strings_in (JStr s # vs) = s # strings_in vs"
| "strings_in (v # vs) = strings_in vs"

definition keywords_listed :: "ParsedTool \<Rightarrow> bool" where
  "keywords_listed tool =
     (case get_prop (skip tool) ''keywords'' of
        JArr ks \<Rightarrow> list_all is_JStr ks
      | v \<Rightarrow> \<not> truthy v)"

definition keyword_list :: "ParsedTool \<Rightarrow> string list" where
  "keyword_list tool =
     (case get_prop (skip tool) ''keywords'' of JArr ks \<Rightarrow> strings_in ks | v \<Rightarrow> [])"

text \<open>
  The entries of \<open>depends_on\<close>, when it is an array; there is none when it is missing (or
  any other falsy value).
\<close>

definition deps_listed :: "ParsedTool \<Rightarrow> bool" where
  "deps_listed tool =
     (case get_prop (skip tool) ''depends_on'' of JArr ds \<Rightarrow> True | v \<Rightarrow> \<not> truthy v)"

definition dep_entries :: "ParsedTool \<Rightarrow> jsval list" where
  "dep_entries tool =
     (case get_prop (skip tool) ''depends_on'' of JArr ds \<Rightarrow> ds | v \<Rightarrow> [])"

text \<open>An entry of \<open>depends_on\<close> is the name of a tool of the list.\<close>

definition resolves_in :: "ParsedTool list \<Rightarrow> jsval \<Rightarrow> bool" where
  "resolves_in pts d = (\<exists>u \<in> set pts. d = JStr (name u))"

text \<open>
  A word of a query: a piece without white space, not empty, with white space or an end
  of the query on both sides.
\<close>

definition query_word :: "string \<Rightarrow> string \<Rightarrow> bool" where
  "query_word s w =
     (w \<noteq> [] \<and> (\<forall>c \<in> set w. \<not> isWhiteSpace c)
      \<and> (\<exists>before after. s = before @ w @ after
            \<and> (before = [] \<or> isWhiteSpace (last before))
            \<and> (after = [] \<or> isWhiteSpace (hd after))))"

text \<open>
  A keyword matches a query, in the words of the specification: the lowercase query
  contains the lowercase keyword, or a word of the query longer than two characters
  contains the keyword, is contained in it, is a prefix of it or has it as a prefix.
\<close>

definition keyword_matches :: "string \<Rightarrow> string \<Rightarrow> bool" where
  "keyword_matches q kw =
     (sublist (toLowerCase kw) (toLowerCase q)
      \<or> (\<exists>w \<in> set (split_ws (toLowerCase q)).
            2 < length w
            \<and> (sublist (toLowerCase kw) w \<or> sublist w (toLowerCase kw)
               \<or> prefix w (toLowerCase kw) \<or> prefix (toLowerCase kw) w)))"

text \<open>
  Loading a document fails when \<open>yaml.load\<close> throws or returns a value that is not an
  object (an array is one); \<open>load_error\<close> is the error as the warning prints it.
\<close>

definition load_fails :: "(string \<Rightarrow> string + jsval) \<Rightarrow> string \<Rightarrow> bool" where
  "load_fails yaml_load doc = (case yaml_load doc of Inl err \<Rightarrow> True | Inr v \<Rightarrow> \<not> is_object v)"

definition load_error :: "(string \<Rightarrow> string + jsval) \<Rightarrow> string \<Rightarrow> string" where
  "load_error yaml_load doc =
     (case yaml_load doc of
        Inl err \<Rightarrow> err
      | Inr v \<Rightarrow> ''Error: Invalid skip configuration format'')"

text \<open>\<open>maxTools\<close> cuts a list of \<open>n\<close> tools.\<close>

definition truncates :: "int option \<Rightarrow> nat \<Rightarrow> bool" where
  "truncates mt n = (case mt of None \<Rightarrow> False | Some m \<Rightarrow> m \<noteq> 0 \<and> m < int n)"

section \<open>An example\<close>

text \<open>
  Five tools in the style of the test suite, and a loader that knows the documents of
  their descriptions, with the value \<open>js-yaml\<close> loads from each.
\<close>

definition yaml_documents :: "(string \<times> jsval) list" where
  "yaml_documents =
     [(''  keywords: [read, file]'',
         JObj [(''keywords'', JArr [JStr ''read'', JStr ''file''])]),
      (''  depends_on: [read_file]'' @ [nl] @ ''  keywords: [write, save]'',
         JObj [(''depends_on'', JArr [JStr ''read_file'']),
               (''keywords'', JArr [JStr ''write'', JStr ''save''])]),
      (''  depends_on: [write_file]'' @ [nl] @ ''  keywords: [publish]'',
         JObj [(''depends_on'', JArr [JStr ''write_file'']),
               (''keywords'', JArr [JStr ''publish''])]),
      (''  keywords: [weather]'',
         JObj [(''keywords'', JArr [JStr ''weather''])]),
      (''  depends_on: [missing_tool]'',
         JObj [(''depends_on'', JArr [JStr ''missing_tool''])]),
      (''  keywords: read'',
         JObj [(''keywords'', JStr ''read'')]),
      (''  depends_on: read_file'',
         JObj [(''depends_on'', JStr ''read_file'')]),
      (''  just some text'',
         JStr ''just some text'')]"

definition yaml_example :: "string \<Rightarrow> string + jsval" where
  "yaml_example doc =
     (case map_of yaml_documents doc of
        Some v \<Rightarrow> Inr v
      | None \<Rightarrow> Inl ''YAMLException: bad document'')"

definition with_skip :: "string \<Rightarrow> string \<Rightarrow> string" where
  "with_skip prose doc = prose @ [nl, nl] @ ''skip:'' @ [nl] @ doc"

definition read_file :: Tool where
  "read_file =
     \<lparr>name = ''read_file'',
      description = with_skip ''Read a file.'' ''  keywords: [read, file]'',
      skip = JUndefined\<rparr>"

definition write_file :: Tool where
  "write_file =
     \<lparr>name = ''write_file'',
      description = with_skip ''Write a file.''
        (''  depends_on: [read_file]'' @ [nl] @ ''  keywords: [write, save]''),
      skip = JUndefined\<rparr>"

definition publish_file :: Tool where
  "publish_file =
     \<lparr>name = ''publish_file'',
      description = with_skip ''Publish a file.''
        (''  depends_on: [write_file]'' @ [nl] @ ''  keywords: [publish]''),
      skip = JUndefined\<rparr>"

definition get_weather :: Tool where
  "get_weather =
     \<lparr>name = ''get_weather'',
      description = with_skip ''Get the weather.'' ''  keywords: [weather]'',
      skip = JUndefined\<rparr>"

definition say_hello :: Tool where
  "say_hello = \<lparr>name = ''say_hello'', description = ''Say hello.'', skip = JUndefined\<rparr>"


definition example_tools :: "Tool list" where
  "example_tools = [read_file, write_file, publish_file, get_weather, say_hello]"

definition parsed :: "Tool \<Rightarrow> string \<Rightarrow> jsval \<Rightarrow> ParsedTool" where
  "parsed tool cleaned config =
     \<lparr>name = name tool, description = description tool, skip = config,
      originalDescription = description tool, cleanDescription = cleaned\<rparr>"

definition p_read :: ParsedTool where
  "p_read = parsed read_file ''Read a file.''
     (JObj [(''keywords'', JArr [JStr ''read'', JStr ''file''])])"

definition p_write :: ParsedTool where
  "p_write = parsed write_file ''Write a file.''
     (JObj [(''depends_on'', JArr [JStr ''read_file'']),
            (''keywords'', JArr [JStr ''write'', JStr ''save''])])"

definition p_publish :: ParsedTool where
  "p_publish = parsed publish_file ''Publish a file.''
     (JObj [(''depends_on'', JArr [JStr ''write_file'']),
            (''keywords'', JArr [JStr ''publish''])])"

definition p_weather :: ParsedTool where
  "p_weather = parsed get_weather ''Get the weather.''
     (JObj [(''keywords'', JArr [JStr ''weather''])])"

definition p_hello :: ParsedTool where
  "p_hello = parsed say_hello ''Say hello.'' JUndefined"


definition example_engine :: SkipTools where
  "example_engine =
     \<lparr>parsedTools = [p_read, p_write, p_publish, p_weather, p_hello],
      lastProcessedMessageCount = 0\<rparr>"

definition user_says :: "string \<Rightarrow> Message" where
  "user_says s = \<lparr>role = User, content = Text s, tool_calls = None\<rparr>"

definition two_messages :: "Message list" where
  "two_messages = [user_says ''What is the weather'', user_says ''Please publish it'']"

definition only_new :: "Message list \<Rightarrow> FilterOptions" where
  "only_new msgs = \<lparr>messages = msgs, maxTools = None, onlyNewMessages = Some True\<rparr>"

definition all_messages :: "Message list \<Rightarrow> FilterOptions" where
  "all_messages msgs = \<lparr>messages = msgs, maxTools = None, onlyNewMessages = None\<rparr>"

definition result_of :: "ParsedTool list \<Rightarrow> string \<Rightarrow> nat \<Rightarrow> FilterResult" where
  "result_of ts why n =
     \<lparr>tools = ts, totalOriginalCount = 5, filteredCount = length ts, reason = why,
      messagesProcessed = n\<rparr>"

text \<open>
  Tools whose block loads no configuration (a plain scalar), with and without a
  configuration of their own, and tools whose \<open>keywords\<close> or \<open>depends_on\<close> is a string
  where a list is expected.
\<close>

definition limited :: "int \<Rightarrow> Message list \<Rightarrow> FilterOptions" where
  "limited m msgs = \<lparr>messages = msgs, maxTools = Some m, onlyNewMessages = None\<rparr>"

definition labelled :: Tool where
  "labelled =
     \<lparr>name = ''labelled'',
      description = with_skip ''Has a label.'' ''  just some text'',
      skip = JObj [(''keywords'', JArr [JStr ''label''])]\<rparr>"

definition unlabelled :: Tool where
  "unlabelled =
     \<lparr>name = ''unlabelled'',
      description = with_skip ''Has no label.'' ''  just some text'',
      skip = JUndefined\<rparr>"

definition sloppy :: Tool where
  "sloppy =
     \<lparr>name = ''sloppy'',
      description = with_skip ''Reads.'' ''  keywords: read'',
      skip = JUndefined\<rparr>"

definition needy :: Tool where
  "needy =
     \<lparr>name = ''needy'',
      description = with_skip ''Needs.'' ''  depends_on: read_file'',
      skip = JUndefined\<rparr>"

definition p_unlabelled :: ParsedTool where
  "p_unlabelled = parsed unlabelled ''Has no label.'' JUndefined"

definition p_labelled :: ParsedTool where
  "p_labelled = parsed labelled ''Has a label.'' (JObj [(''keywords'', JArr [JStr ''label''])])"

definition p_sloppy :: ParsedTool where
  "p_sloppy = parsed sloppy ''Reads.'' (JObj [(''keywords'', JStr ''read'')])"

definition engine_of :: "ParsedTool list \<Rightarrow> SkipTools" where
  "engine_of pts = \<lparr>parsedTools = pts, lastProcessedMessageCount = 0\<rparr>"

definition result_from :: "nat \<Rightarrow> ParsedTool list \<Rightarrow> string \<Rightarrow> nat \<Rightarrow> FilterResult" where
  "result_from orig ts why n =
     \<lparr>tools = ts, totalOriginalCount = orig, filteredCount = length ts, reason = why,
      messagesProcessed = n\<rparr>"

definition text_block :: string where
  "text_block = [nl, nl] @ ''skip:'' @ [nl] @ ''  just some text''"

definition parse_warning :: string where
  "parse_warning = ''Failed to parse skip configuration: Error: Invalid skip configuration format''"

section \<open>The example, evaluated\<close>

lemma example_construction:
  "new_SkipTools yaml_example example_tools = (Inr example_engine, [])"
  by code_simp

lemma example_filter_all:
  "filter_tools example_engine (all_messages two_messages)
   = (example_engine\<lparr>lastProcessedMessageCount := 2\<rparr>,
      Inr (result_of [p_write, p_publish, p_weather, p_hello]
             ''filtered by keywords from 2 all messages, dependencies added'' 2))"
  by code_simp

lemma example_filter_new:
  "filter_tools (example_engine\<lparr>lastProcessedMessageCount := 1\<rparr>) (only_new two_messages)
   = (example_engine\<lparr>lastProcessedMessageCount := 2\<rparr>,
      Inr (result_of [p_write, p_publish, p_hello]
             ''filtered by keywords from 0 new messages, dependencies added'' 2))"
  by code_simp






lemma example_filter_none:
  "filter_tools (example_engine\<lparr>lastProcessedMessageCount := 2\<rparr>) (only_new [])
   = (example_engine,
      Inr (result_of [p_read, p_write, p_publish, p_weather, p_hello] ''no filters applied'' 0))"
  by code_simp

lemma example_filter_limited:
  "filter_tools example_engine (limited 2 [])
   = (example_engine, Inr (result_of [p_read, p_write] ''limited to 2 tools'' 0))"
  by code_simp

lemma example_match_unlabelled:
  "js_match SKIP_YAML_REGEX (description unlabelled) = Some (text_block, Some ''  just some text'')"
  by code_simp

lemma example_match_labelled:
  "js_match SKIP_YAML_REGEX (description labelled) = Some (text_block, Some ''  just some text'')"
  by code_simp

lemma example_load_fails: "load_fails yaml_example ''  just some text''"
  by code_simp

lemma example_load_error:
  "''Failed to parse skip configuration: '' @ load_error yaml_example ''  just some text''
   = parse_warning"
  by code_simp

lemma example_unlabelled:
  "new_SkipTools yaml_example [read_file, unlabelled]
   = (Inr (engine_of [p_read, p_unlabelled]), [parse_warning])"
  by code_simp

lemma example_parse_unlabelled: "parseTool yaml_example unlabelled = p_unlabelled"
  by code_simp

lemma example_clean_unlabelled:
  "trim (removeFirst (description unlabelled) text_block) = ''Has no label.''"
  by code_simp

lemma example_filter_unlabelled:
  "filter_tools (engine_of [p_read, p_unlabelled]) (all_messages [user_says ''weather''])
   = (engine_of [p_read, p_unlabelled]\<lparr>lastProcessedMessageCount := 1\<rparr>,
      Inr (result_from 2 [p_unlabelled]
             ''filtered by keywords from 1 all messages, dependencies added'' 1))"
  by code_simp

lemma example_labelled:
  "new_SkipTools yaml_example [read_file, labelled]
   = (Inr (engine_of [p_read, p_labelled]), [parse_warning])"
  by code_simp

lemma example_filter_labelled:
  "filter_tools (engine_of [p_read, p_labelled]) (all_messages [user_says ''weather''])
   = (engine_of [p_read, p_labelled]\<lparr>lastProcessedMessageCount := 1\<rparr>,
      Inr (result_from 2 []
             ''filtered by keywords from 1 all messages, dependencies added'' 1))"
  by code_simp

lemma example_sloppy:
  "new_SkipTools yaml_example [read_file, sloppy] = (Inr (engine_of [p_read, p_sloppy]), [])"
  by code_simp

lemma example_filter_sloppy:
  "filter_tools (engine_of [p_read, p_sloppy]) (all_messages [user_says ''hello there''])
   = (engine_of [p_read, p_sloppy]\<lparr>lastProcessedMessageCount := 1\<rparr>, Inl TypeError)"
  by code_simp

lemma example_filter_sloppy_empty:
  "filter_tools (engine_of [p_read, p_sloppy]) (all_messages [])
   = (engine_of [p_read, p_sloppy],
      Inr (result_from 2 [p_read, p_sloppy] ''no filters applied'' 0))"
  by code_simp

lemma example_needy:
  "new_SkipTools yaml_example [read_file, needy] = (Inl TypeError, [])"
  by code_simp

lemma example_sloppy_invalid: "\<not> validateSkipConfig (skip p_sloppy)"
  by code_simp

section \<open>The state of the engine across calls\<close>

lemma filter_tools_state:
  "fst (filter_tools this options)
   = this\<lparr>lastProcessedMessageCount := length (messages options)\<rparr>"
  by (simp add: filter_tools_def Let_def)

lemma filter_calls_parsedTools:
  "parsedTools (filter_calls this calls) = parsedTools this"
  by (induction calls arbitrary: this) (simp_all add: filter_tools_state)

lemma filter_tools_result_processed:
  "snd (filter_tools this options) = Inr r \<Longrightarrow> messagesProcessed r = length (messages options)"
  by (auto simp: filter_tools_def Let_def extractQueryFromMessages_def
           split: sum.splits if_splits)

text \<open>
  C9. A call of \<open>filter\<close> changes \<open>lastProcessedMessageCount\<close> and nothing else of the
  engine: the parsed tools (names, descriptions, configurations, length and order) are
  the same after any sequence of calls, and so is what \<open>getAllTools\<close> returns.
\<close>

theorem filter_leaves_tools_unchanged:
  "fst (filter_tools this options)
     = this\<lparr>lastProcessedMessageCount := length (messages options)\<rparr>
   \<and> parsedTools (fst (filter_tools this options)) = parsedTools this
   \<and> parsedTools (filter_calls this calls) = parsedTools this
   \<and> getAllTools (filter_calls this calls) = getAllTools this"
  by (simp add: filter_tools_state filter_calls_parsedTools getAllTools_def)

section \<open>The window of new messages\<close>

lemma filter_tools_result:
  "snd (filter_tools this options) =
     (case (if textContent (if onlyNew_of options
                            then drop (lastProcessedMessageCount this) (messages options)
                            else messages options) \<noteq> []
            then filterByKeywords (parsedTools this)
                   (textContent (if onlyNew_of options
                                 then drop (lastProcessedMessageCount this) (messages options)
                                 else messages options))
            else Inr (parsedTools this)) of
        Inl e \<Rightarrow> Inl e
      | Inr matched \<Rightarrow>
          (case addDependencies this matched of
             Inl e \<Rightarrow> Inl e
           | Inr expanded \<Rightarrow>
               Inr \<lparr>tools = limitTools (maxTools options) expanded,
                    totalOriginalCount = length (parsedTools this),
                    filteredCount = length (limitTools (maxTools options) expanded),
                    reason = generateFilterReason
                               (this\<lparr>lastProcessedMessageCount := length (messages options)\<rparr>)
                               options (length (limitTools (maxTools options) expanded)),
                    messagesProcessed = length (messages options)\<rparr>))"
  by (simp add: filter_tools_def Let_def extractQueryFromMessages_def addDependencies_def
           split: sum.splits)

text \<open>
  C6. With \<open>onlyNewMessages\<close> true the query is the text of the messages from index
  \<open>lastProcessedMessageCount\<close> on, which after a call of \<open>filter\<close> is the length of the
  messages that call was given; the messages before that index do not enter it. The tools
  such a call selects are those a call on the slice alone selects.
\<close>

theorem only_new_messages_window:
  "query (extractQueryFromMessages this msgs True)
     = query (extractQueryFromMessages other (drop (lastProcessedMessageCount this) msgs) False)
   \<and> query (extractQueryFromMessages (fst (filter_tools this previous)) msgs True)
     = query (extractQueryFromMessages other (drop (length (messages previous)) msgs) False)
   \<and> map_sum id tools
       (snd (filter_tools this \<lparr>messages = msgs, maxTools = mt, onlyNewMessages = Some True\<rparr>))
     = map_sum id tools
       (snd (filter_tools this
              \<lparr>messages = drop (lastProcessedMessageCount this) msgs, maxTools = mt,
               onlyNewMessages = None\<rparr>))"
  by (simp add: filter_tools_state filter_tools_result extractQueryFromMessages_def onlyNew_of_def
           split: sum.splits)

section \<open>Calls that read all the messages\<close>

lemma filter_tools_history:
  assumes "\<not> onlyNew_of options" and "parsedTools this = parsedTools other"
  shows "snd (filter_tools this options) = snd (filter_tools other options)"
proof -
  have same_engine:
    "this\<lparr>lastProcessedMessageCount := length (messages options)\<rparr>
     = other\<lparr>lastProcessedMessageCount := length (messages options)\<rparr>"
    using assms(2) by (cases this, cases other) simp
  have same_query:
    "extractQueryFromMessages this (messages options) False
     = extractQueryFromMessages other (messages options) False"
    by (simp add: extractQueryFromMessages_def)
  show ?thesis
    unfolding filter_tools_def Let_def using assms(1)
    by (simp only: same_engine same_query snd_conv)
qed

text \<open>
  C10. When \<open>onlyNewMessages\<close> is false or absent, what \<open>filter\<close> returns (the result, or
  the exception) does not depend on the calls made before: after any two histories of
  calls on one engine, the same options give the same outcome.
\<close>

theorem all_messages_history_independent:
  assumes "onlyNewMessages options \<noteq> Some True"
  shows "snd (filter_tools (filter_calls this before1) options)
         = snd (filter_tools (filter_calls this before2) options)"
proof -
  from assms have "\<not> onlyNew_of options"
    by (cases "onlyNewMessages options") (auto simp: onlyNew_of_def)
  moreover have "parsedTools (filter_calls this before1) = parsedTools (filter_calls this before2)"
    by (simp add: filter_calls_parsedTools)
  ultimately show ?thesis by (rule filter_tools_history)
qed

theorem all_messages_history_independent_witness:
  "onlyNewMessages (all_messages two_messages) \<noteq> Some True
   \<and> snd (filter_tools (filter_calls example_engine [only_new two_messages, all_messages []])
            (all_messages two_messages))
     = Inr (result_of [p_write, p_publish, p_weather, p_hello]
              ''filtered by keywords from 2 all messages, dependencies added'' 2)"
proof -
  have absent: "onlyNewMessages (all_messages two_messages) \<noteq> Some True"
    by (simp add: all_messages_def)
  have "snd (filter_tools (filter_calls example_engine []) (all_messages two_messages))
        = Inr (result_of [p_write, p_publish, p_weather, p_hello]
                 ''filtered by keywords from 2 all messages, dependencies added'' 2)"
    by (simp add: example_filter_all)
  with absent
    all_messages_history_independent
      [OF absent, of example_engine "[only_new two_messages, all_messages []]" "[]"]
  show ?thesis by simp
qed

section \<open>Dependencies\<close>

lemma has_name_resolves: "has_name (map name pts) d = resolves_in pts d"
  by (cases d) (auto simp: resolves_in_def)

lemma check_deps_ok:
  "(check_deps names tn ds = Inr ()) = (\<forall>d \<in> set ds. has_name names d)"
  by (induction ds) auto


lemma check_tool_ok:
  "(check_tool names t = Inr ()) = (deps_listed t \<and> (\<forall>d \<in> set (dep_entries t). has_name names d))"
  by (cases "get_prop (skip t) ''depends_on''")
     (auto simp: check_tool_def deps_listed_def dep_entries_def Let_def check_deps_ok)


lemma check_tools_ok:
  "(check_tools names ts = Inr ()) = (\<forall>t \<in> set ts. check_tool names t = Inr ())"
  by (induction ts) (auto split: sum.splits)


lemma new_SkipTools_result:
  "fst (new_SkipTools yaml_load ts) =
     (case check_tools (map name (fst (parseTools yaml_load ts))) (fst (parseTools yaml_load ts)) of
        Inl e \<Rightarrow> Inl e
      | Inr u \<Rightarrow> Inr \<lparr>parsedTools = fst (parseTools yaml_load ts), lastProcessedMessageCount = 0\<rparr>)"
  by (simp add: new_SkipTools_def validateDependencies_def Let_def)




lemma constructed_invariant:
  assumes "fst (new_SkipTools yaml_load ts) = Inr this"
  shows "\<forall>t \<in> set (parsedTools this).
           deps_listed t \<and> (\<forall>d \<in> set (dep_entries t). resolves_in (parsedTools this) d)"
proof -
  let ?pts = "fst (parseTools yaml_load ts)"
  from assms have ok: "check_tools (map name ?pts) ?pts = Inr ()"
    and built: "this = \<lparr>parsedTools = ?pts, lastProcessedMessageCount = 0\<rparr>"
    by (auto simp: new_SkipTools_result split: sum.splits)
  from ok show ?thesis
    by (simp add: built check_tools_ok check_tool_ok has_name_resolves)
qed

lemma added_deps_listed:
  "\<forall>t \<in> set ts. deps_listed t \<Longrightarrow> added_deps ts = Inr (concat (map dep_entries ts))"
proof (induction ts)
  case Nil
  show ?case by simp
next
  case (Cons t ts)
  then show ?case
    by (cases "get_prop (skip t) ''depends_on''")
       (auto simp: deps_listed_def dep_entries_def Let_def)
qed

lemma addDependencies_listed:
  assumes "\<forall>t \<in> set filtered. deps_listed t"
  shows "addDependencies this filtered
         = Inr (filter (\<lambda>tool. name tool \<in> set (map name filtered)
                                \<or> (\<exists>f \<in> set filtered. JStr (name tool) \<in> set (dep_entries f)))
                  (parsedTools this))"
proof -
  have same: "filter (\<lambda>tool. JStr (name tool)
                  \<in> set (map (\<lambda>tool. JStr (name tool)) filtered @ concat (map dep_entries filtered)))
                (parsedTools this)
        = filter (\<lambda>tool. name tool \<in> set (map name filtered)
                          \<or> (\<exists>f \<in> set filtered. JStr (name tool) \<in> set (dep_entries f)))
            (parsedTools this)"
    by (rule filter_cong [OF refl]) auto
  show ?thesis
    unfolding addDependencies_def added_deps_listed [OF assms] Let_def
    by (simp only: sum.case same)
qed

text \<open>
  C2. On an engine that construction returned, after any calls of \<open>filter\<close>, and for any
  list of tools of the engine, \<open>addDependencies\<close> returns the tools of the engine, in the
  order of construction, whose name is the name of a tool of the list or an entry of the
  \<open>depends_on\<close> of a tool of the list, and no other: the dependencies of a dependency are
  not followed.
\<close>

theorem dependencies_one_hop:
  assumes "fst (new_SkipTools yaml_load ts) = Inr this0"
    and "this = filter_calls this0 calls"
    and "set filtered \<subseteq> set (parsedTools this)"
  shows "addDependencies this filtered
         = Inr (filter (\<lambda>tool. name tool \<in> set (map name filtered)
                                \<or> (\<exists>f \<in> set filtered. JStr (name tool) \<in> set (dep_entries f)))
                  (parsedTools this))"
proof -
  have "parsedTools this = parsedTools this0"
    by (simp add: assms(2) filter_calls_parsedTools)
  with constructed_invariant [OF assms(1)] assms(3)
  have "\<forall>t \<in> set filtered. deps_listed t" by auto
  then show ?thesis by (rule addDependencies_listed)
qed


theorem dependencies_one_hop_witness:
  "fst (new_SkipTools yaml_example example_tools) = Inr example_engine
   \<and> set [p_publish, p_hello]
       \<subseteq> set (parsedTools (filter_calls example_engine [all_messages two_messages]))
   \<and> addDependencies (filter_calls example_engine [all_messages two_messages])
         [p_publish, p_hello]
       = Inr [p_write, p_publish, p_hello]
   \<and> p_read \<notin> set [p_write, p_publish, p_hello]"
proof -
  have built: "fst (new_SkipTools yaml_example example_tools) = Inr example_engine"
    by (simp add: example_construction)
  have part: "set [p_publish, p_hello]
       \<subseteq> set (parsedTools (filter_calls example_engine [all_messages two_messages]))"
    by (simp only: filter_calls_parsedTools) (simp add: example_engine_def)
  have selected:
    "filter (\<lambda>tool. name tool \<in> set (map name [p_publish, p_hello])
                     \<or> (\<exists>f \<in> set [p_publish, p_hello]. JStr (name tool) \<in> set (dep_entries f)))
       (parsedTools (filter_calls example_engine [all_messages two_messages]))
     = [p_write, p_publish, p_hello]"
    by code_simp
  have absent: "p_read \<notin> set [p_write, p_publish, p_hello]"
    by code_simp
  from dependencies_one_hop [OF built refl part] selected built part absent
  show ?thesis by simp
qed

section \<open>Keyword matching\<close>

lemma startsWith_prefix: "startsWith s t = prefix t s"
  by (induction s t rule: startsWith.induct) auto

lemma includes_str_sublist: "includes_str s t = sublist t s"
  by (induction s) (auto simp: sublist_Cons_right startsWith_prefix)

lemma filter_throwing_total:
  "\<forall>x \<in> set xs. p x = Inr (q x) \<Longrightarrow> filter_throwing p xs = Inr (filter q xs)"
  by (induction xs) auto

lemma some_throwing_strings:
  "list_all is_JStr ks \<Longrightarrow>
   some_throwing (\<lambda>k. case k of JStr kw \<Rightarrow> Inr (q kw) | _ \<Rightarrow> Inl TypeError) ks
   = Inr (\<exists>kw \<in> set (strings_in ks). q kw)"
proof (induction ks)
  case Nil
  show ?case by simp
next
  case (Cons k ks)
  then show ?case by (cases k) auto
qed

lemma keyword_test_matches:
  "keyword_test (toLowerCase q) (filter (\<lambda>word. 2 < length word) (split_ws (toLowerCase q))) k
   = (case k of JStr kw \<Rightarrow> Inr (keyword_matches q kw) | _ \<Rightarrow> Inl TypeError)"
  by (cases k)
     (auto simp: keyword_test_def keyword_matches_def word_matches_def Let_def list_ex_iff
                 includes_str_sublist startsWith_prefix)

lemma strings_in_empty: "list_all is_JStr ks \<Longrightarrow> (strings_in ks = []) = (ks = [])"
  by (cases ks rule: strings_in.cases) auto

lemma tool_test_listed:
  assumes "keywords_listed tool"
  shows "tool_test (toLowerCase q) (filter (\<lambda>word. 2 < length word) (split_ws (toLowerCase q))) tool
         = Inr (keyword_list tool = []
                \<or> (\<exists>kw \<in> set (keyword_list tool). keyword_matches q kw))"
proof (cases "get_prop (skip tool) ''keywords''")
  case (JArr ks)
  with assms have strs: "list_all is_JStr ks" by (simp add: keywords_listed_def)
  show ?thesis
  proof (cases "ks = []")
    case True
    with JArr show ?thesis by (simp add: tool_test_def keyword_list_def)
  next
    case False
    with JArr strs show ?thesis
      by (simp add: tool_test_def keyword_list_def keyword_test_matches [abs_def]
                    some_throwing_strings strings_in_empty)
  qed
qed (use assms in \<open>auto simp: tool_test_def keyword_list_def keywords_listed_def\<close>)

lemma query_word_plain:
  assumes "\<forall>c \<in> set u. \<not> isWhiteSpace c"
  shows "query_word u w = (w = u \<and> u \<noteq> [])"
proof
  assume "query_word u w"
  then obtain before after where w: "w \<noteq> []" and u: "u = before @ w @ after"
    and b: "before = [] \<or> isWhiteSpace (last before)"
    and a: "after = [] \<or> isWhiteSpace (hd after)"
    by (auto simp: query_word_def)
  from assms u b have "before = []" by (cases before rule: rev_cases) auto
  moreover from assms u a have "after = []" by (cases after) auto
  ultimately show "w = u \<and> u \<noteq> []" using u w by simp
next
  assume "w = u \<and> u \<noteq> []"
  with assms show "query_word u w"
    by (auto simp: query_word_def intro!: exI [of _ "[]"])
qed

lemma query_word_split:
  assumes u: "\<forall>x \<in> set u. \<not> isWhiteSpace x" and c: "isWhiteSpace c"
  shows "query_word (u @ c # v) w = ((w = u \<and> u \<noteq> []) \<or> query_word v w)"
proof
  assume "query_word (u @ c # v) w"
  then obtain before after where w: "w \<noteq> []" and nows: "\<forall>x \<in> set w. \<not> isWhiteSpace x"
    and eq: "u @ c # v = before @ w @ after"
    and b: "before = [] \<or> isWhiteSpace (last before)"
    and a: "after = [] \<or> isWhiteSpace (hd after)"
    by (auto simp: query_word_def)
  from eq consider (left) us where "u = before @ us" "us @ c # v = w @ after"
    | (right) us where "u @ us = before" "c # v = us @ w @ after"
    by (auto simp: append_eq_append_conv2)
  then show "(w = u \<and> u \<noteq> []) \<or> query_word v w"
  proof cases
    case left
    from u left(1) b have "before = []" by (cases before rule: rev_cases) auto
    with left have eq2: "u @ c # v = w @ after" by simp
    then consider (shorter) us' where "u = w @ us'" "us' @ c # v = after"
      | (longer) us' where "u @ us' = w" "c # v = us' @ after"
      by (auto simp: append_eq_append_conv2)
    then have "w = u"
    proof cases
      case shorter
      show ?thesis
      proof (cases us')
        case Nil
        with shorter show ?thesis by simp
      next
        case (Cons x xs)
        with shorter a u show ?thesis by auto
      qed
    next
      case longer
      show ?thesis
      proof (cases us')
        case Nil
        with longer show ?thesis by simp
      next
        case (Cons x xs)
        with longer nows c show ?thesis by auto
      qed
    qed
    with w show ?thesis by simp
  next
    case right
    show ?thesis
    proof (cases us)
      case Nil
      with right w nows c show ?thesis by (cases w) auto
    next
      case (Cons x xs)
      with right have v: "v = xs @ w @ after" and before: "before = u @ c # xs" by auto
      from b before have "xs = [] \<or> isWhiteSpace (last xs)" by (cases xs rule: rev_cases) auto
      with v w nows a have "query_word v w" by (auto simp: query_word_def)
      then show ?thesis ..
    qed
  qed
next
  assume "(w = u \<and> u \<noteq> []) \<or> query_word v w"
  then show "query_word (u @ c # v) w"
  proof
    assume wu: "w = u \<and> u \<noteq> []"
    then have "u @ c # v = [] @ w @ (c # v)" by simp
    moreover from c have "isWhiteSpace (hd (c # v))" by simp
    ultimately show ?thesis using wu u unfolding query_word_def by blast
  next
    assume "query_word v w"
    then obtain before after where w: "w \<noteq> []" and nows: "\<forall>x \<in> set w. \<not> isWhiteSpace x"
      and eq: "v = before @ w @ after"
      and b: "before = [] \<or> isWhiteSpace (last before)"
      and a: "after = [] \<or> isWhiteSpace (hd after)"
      by (auto simp: query_word_def)
    have "u @ c # v = (u @ c # before) @ w @ after" by (simp add: eq)
    moreover from b c have "isWhiteSpace (last (u @ c # before))" by auto
    ultimately show ?thesis using w nows a unfolding query_word_def by blast
  qed
qed

lemma query_word_dropWhile:
  "query_word (dropWhile isWhiteSpace v) w = query_word v w"
proof (induction v)
  case Nil
  show ?case by simp
next
  case (Cons c v)
  show ?case
  proof (cases "isWhiteSpace c")
    case True
    from query_word_split [of "[]" c v w] True have "query_word (c # v) w = query_word v w"
      by (auto simp: query_word_def)
    with True Cons show ?thesis by simp
  next
    case False
    then show ?thesis by simp
  qed
qed

lemma split_acc_words:
  "\<forall>c \<in> set cur. \<not> isWhiteSpace c \<Longrightarrow>
   (w \<in> set (split_acc cur s) \<and> w \<noteq> []) = query_word (rev cur @ s) w"
proof (induction cur s rule: split_acc.induct)
  case (1 cur)
  then show ?case by (auto simp: query_word_plain)
next
  case (2 cur c cs)
  show ?case
  proof (cases "isWhiteSpace c")
    case True
    from 2 True have "(w \<in> set (split_acc [] (dropWhile isWhiteSpace cs)) \<and> w \<noteq> [])
                      = query_word cs w"
      by (simp add: query_word_dropWhile)
    with True 2(3) show ?thesis
      by (auto simp: query_word_split)
  next
    case False
    with 2 show ?thesis by simp
  qed
qed

lemma split_ws_words: "(w \<in> set (split_ws s) \<and> w \<noteq> []) = query_word s w"
  using split_acc_words [of "[]" w s] by (simp add: split_ws_def)


lemma keyword_matches_words:
  "keyword_matches q kw
   = (sublist (toLowerCase kw) (toLowerCase q)
      \<or> (\<exists>w. query_word (toLowerCase q) w \<and> 2 < length w
               \<and> (sublist (toLowerCase kw) w \<or> sublist w (toLowerCase kw)
                  \<or> prefix w (toLowerCase kw) \<or> prefix (toLowerCase kw) w)))"
proof -
  have words: "(w \<in> set (split_ws (toLowerCase q)) \<and> 2 < length w)
            = (query_word (toLowerCase q) w \<and> 2 < length w)" for w
  proof (cases "w = []")
    case True
    then show ?thesis by (simp add: query_word_def)
  next
    case False
    with split_ws_words [of w "toLowerCase q"] show ?thesis by simp
  qed
  have "(\<exists>w \<in> set (split_ws (toLowerCase q)).
            2 < length w
            \<and> (sublist (toLowerCase kw) w \<or> sublist w (toLowerCase kw)
               \<or> prefix w (toLowerCase kw) \<or> prefix (toLowerCase kw) w))
        = (\<exists>w. (w \<in> set (split_ws (toLowerCase q)) \<and> 2 < length w)
               \<and> (sublist (toLowerCase kw) w \<or> sublist w (toLowerCase kw)
                  \<or> prefix w (toLowerCase kw) \<or> prefix (toLowerCase kw) w))"
    by (simp only: Bex_def conj_assoc)
  then show ?thesis
    unfolding keyword_matches_def by (simp only: words conj_assoc)
qed

lemma filterByKeywords_listed:
  assumes "\<forall>tool \<in> set ts. keywords_listed tool"
  shows "filterByKeywords ts q
           = Inr (filter (\<lambda>tool. keyword_list tool = []
                                  \<or> (\<exists>kw \<in> set (keyword_list tool). keyword_matches q kw)) ts)"
  using assms
  by (simp add: filterByKeywords_def Let_def filter_throwing_total tool_test_listed)

text \<open>
  C1. On tools whose \<open>keywords\<close> is a list of strings (or missing), \<open>filterByKeywords\<close>
  returns the tools of its input, in their order, that have no keyword or have a keyword
  that matches the query: a subsequence of the input. A keyword matches when the
  lowercase query contains the lowercase keyword, or when a word of the lowercase query
  (a piece between white space) longer than two characters contains the keyword, is
  contained in it, is a prefix of it or has it as a prefix.
\<close>

theorem keyword_filter_selects_matching_tools:
  assumes "\<forall>tool \<in> set ts. keywords_listed tool"
  shows "filterByKeywords ts q
           = Inr (filter (\<lambda>tool. keyword_list tool = []
                                  \<or> (\<exists>kw \<in> set (keyword_list tool). keyword_matches q kw)) ts)
         \<and> subseq (filter (\<lambda>tool. keyword_list tool = []
                                  \<or> (\<exists>kw \<in> set (keyword_list tool). keyword_matches q kw)) ts) ts
         \<and> (\<forall>kw. keyword_matches q kw
                  = (sublist (toLowerCase kw) (toLowerCase q)
                     \<or> (\<exists>w. query_word (toLowerCase q) w \<and> 2 < length w
                              \<and> (sublist (toLowerCase kw) w \<or> sublist w (toLowerCase kw)
                                 \<or> prefix w (toLowerCase kw) \<or> prefix (toLowerCase kw) w))))"
proof (intro conjI allI)
  show "filterByKeywords ts q
           = Inr (filter (\<lambda>tool. keyword_list tool = []
                                  \<or> (\<exists>kw \<in> set (keyword_list tool). keyword_matches q kw)) ts)"
    by (rule filterByKeywords_listed [OF assms])
  show "subseq (filter (\<lambda>tool. keyword_list tool = []
                                  \<or> (\<exists>kw \<in> set (keyword_list tool). keyword_matches q kw)) ts) ts"
    by (rule subseq_filter_left)
  show "keyword_matches q kw
                  = (sublist (toLowerCase kw) (toLowerCase q)
                     \<or> (\<exists>w. query_word (toLowerCase q) w \<and> 2 < length w
                              \<and> (sublist (toLowerCase kw) w \<or> sublist w (toLowerCase kw)
                                 \<or> prefix w (toLowerCase kw) \<or> prefix (toLowerCase kw) w)))" for kw
    by (rule keyword_matches_words)
qed

lemma example_keywords_listed: "list_all keywords_listed (parsedTools example_engine)"
  by code_simp

lemma example_keyword_filter:
  "filter (\<lambda>tool. keyword_list tool = []
                  \<or> (\<exists>kw \<in> set (keyword_list tool).
                        keyword_matches ''Please PUBLISH the weather report'' kw))
     (parsedTools example_engine)
   = [p_publish, p_weather, p_hello]"
  by code_simp

theorem keyword_filter_selects_matching_tools_witness:
  "list_all keywords_listed (parsedTools example_engine)
   \<and> filterByKeywords (parsedTools example_engine) ''Please PUBLISH the weather report''
     = Inr [p_publish, p_weather, p_hello]
   \<and> subseq [p_publish, p_weather, p_hello] (parsedTools example_engine)"
proof -
  have listed: "\<forall>tool \<in> set (parsedTools example_engine). keywords_listed tool"
    using example_keywords_listed by (simp add: list_all_iff)
  from keyword_filter_selects_matching_tools
         [OF listed, of "''Please PUBLISH the weather report''"]
  show ?thesis
    unfolding example_keyword_filter using example_keywords_listed by simp
qed


section \<open>What filter returns\<close>

lemma filter_throwing_subset:
  "filter_throwing p xs = Inr ys \<Longrightarrow> set ys \<subseteq> set xs"
  by (induction xs arbitrary: ys) (auto split: sum.splits if_splits)

lemma textContent_Nil: "textContent [] = []"
  by (simp add: textContent_def)

lemma addDependencies_all:
  assumes "\<forall>t \<in> set (parsedTools this). deps_listed t"
  shows "addDependencies this (parsedTools this) = Inr (parsedTools this)"
  by (simp add: addDependencies_listed [OF assms])

lemma limitTools_whole:
  "\<not> truncates mt (length ts) \<Longrightarrow> limitTools mt ts = ts"
  by (auto simp: truncates_def limitTools_def split: option.splits)

lemma filter_tools_no_messages:
  assumes "\<forall>t \<in> set (parsedTools this). deps_listed t" and "messages options = []"
  shows "\<exists>r. snd (filter_tools this options) = Inr r
            \<and> tools r = limitTools (maxTools options) (parsedTools this)
            \<and> messagesProcessed r = 0"
  using assms(2)
  by (simp add: filter_tools_result textContent_Nil addDependencies_all [OF assms(1)])

lemma filter_tools_returns:
  assumes deps: "\<forall>t \<in> set (parsedTools this). deps_listed t"
    and kws: "\<forall>t \<in> set (parsedTools this). keywords_listed t"
  shows "\<exists>r. snd (filter_tools this options) = Inr r"
proof -
  let ?q = "textContent (if onlyNew_of options
                         then drop (lastProcessedMessageCount this) (messages options)
                         else messages options)"
  obtain matched where matched:
    "(if ?q \<noteq> [] then filterByKeywords (parsedTools this) ?q else Inr (parsedTools this))
     = Inr matched" and sub: "set matched \<subseteq> set (parsedTools this)"
    using filterByKeywords_listed [OF kws, of ?q] by (cases "?q = []") auto
  from deps sub have "\<forall>t \<in> set matched. deps_listed t" by blast
  from addDependencies_listed [OF this, of this] matched
  show ?thesis by (simp add: filter_tools_result)
qed

text \<open>
  C5. Every call of \<open>filter\<close> sets \<open>lastProcessedMessageCount\<close> to the length of the
  messages supplied, and the \<open>messagesProcessed\<close> of the result it returns is that length,
  whatever \<open>onlyNewMessages\<close> is. It does return a result when the \<open>depends_on\<close> and
  the \<open>keywords\<close> of every tool are lists (or missing).
\<close>

theorem messagesProcessed_is_total_length:
  "lastProcessedMessageCount (fst (filter_tools this options)) = length (messages options)
   \<and> (\<forall>r. snd (filter_tools this options) = Inr r
          \<longrightarrow> messagesProcessed r = length (messages options))
   \<and> ((\<forall>tool \<in> set (parsedTools this). deps_listed tool \<and> keywords_listed tool)
        \<longrightarrow> (\<exists>r. snd (filter_tools this options) = Inr r
                 \<and> messagesProcessed r = length (messages options)))"
proof (intro conjI impI allI)
  show "lastProcessedMessageCount (fst (filter_tools this options)) = length (messages options)"
    by (simp add: filter_tools_state)
  show "messagesProcessed r = length (messages options)"
    if "snd (filter_tools this options) = Inr r" for r
    using that by (rule filter_tools_result_processed)
  show "\<exists>r. snd (filter_tools this options) = Inr r
            \<and> messagesProcessed r = length (messages options)"
    if "\<forall>tool \<in> set (parsedTools this). deps_listed tool \<and> keywords_listed tool"
  proof -
    from that have "\<exists>r. snd (filter_tools this options) = Inr r"
      by (intro filter_tools_returns) auto
    then show ?thesis by (auto dest: filter_tools_result_processed)
  qed
qed

theorem messagesProcessed_is_total_length_witness:
  "snd (filter_tools (example_engine\<lparr>lastProcessedMessageCount := 1\<rparr>) (only_new two_messages))
     = Inr (result_of [p_write, p_publish, p_hello]
              ''filtered by keywords from 0 new messages, dependencies added'' 2)
   \<and> messagesProcessed (result_of [p_write, p_publish, p_hello]
              ''filtered by keywords from 0 new messages, dependencies added'' 2)
     = length (messages (only_new two_messages))
   \<and> lastProcessedMessageCount
       (fst (filter_tools (example_engine\<lparr>lastProcessedMessageCount := 1\<rparr>)
              (only_new two_messages)))
     = length (messages (only_new two_messages))"
proof -
  have returned:
    "snd (filter_tools (example_engine\<lparr>lastProcessedMessageCount := 1\<rparr>) (only_new two_messages))
     = Inr (result_of [p_write, p_publish, p_hello]
              ''filtered by keywords from 0 new messages, dependencies added'' 2)"
    unfolding example_filter_new by (rule snd_conv)
  from returned messagesProcessed_is_total_length
          [of "example_engine\<lparr>lastProcessedMessageCount := 1\<rparr>" "only_new two_messages"]
  show ?thesis by blast
qed

text \<open>
  C4, as the code has it. On an engine that construction returned, after any calls:
  when the \<open>keywords\<close> of every tool is a list of strings (or missing), \<open>filter\<close> returns a
  result and throws nothing, whatever the messages and the options are; and with no
  message at all it returns a result, whatever the configurations are, whose tools are
  the tools of the engine cut by \<open>maxTools\<close> (all of them when \<open>maxTools\<close> does not cut)
  and whose \<open>messagesProcessed\<close> is 0.
\<close>

theorem filter_returns:
  assumes "fst (new_SkipTools yaml_load ts) = Inr this0"
    and "this = filter_calls this0 calls"
  shows "((\<forall>tool \<in> set (parsedTools this). keywords_listed tool)
            \<longrightarrow> (\<exists>r. snd (filter_tools this options) = Inr r))
         \<and> (messages options = []
            \<longrightarrow> (\<exists>r. snd (filter_tools this options) = Inr r
                     \<and> tools r = limitTools (maxTools options) (parsedTools this)
                     \<and> messagesProcessed r = 0
                     \<and> (\<not> truncates (maxTools options) (length (parsedTools this))
                          \<longrightarrow> tools r = parsedTools this)))"
proof -
  have "parsedTools this = parsedTools this0"
    by (simp add: assms(2) filter_calls_parsedTools)
  with constructed_invariant [OF assms(1)]
  have deps: "\<forall>t \<in> set (parsedTools this). deps_listed t" by simp
  from filter_tools_returns [OF deps] filter_tools_no_messages [OF deps]
  show ?thesis by (fastforce simp: limitTools_whole)
qed

theorem filter_returns_witness:
  "fst (new_SkipTools yaml_example example_tools) = Inr example_engine
   \<and> list_all keywords_listed
       (parsedTools (filter_calls example_engine [all_messages two_messages]))
   \<and> messages (only_new []) = []
   \<and> \<not> truncates (maxTools (only_new []))
         (length (parsedTools (filter_calls example_engine [all_messages two_messages])))
   \<and> snd (filter_tools (filter_calls example_engine [all_messages two_messages]) (only_new []))
     = Inr (result_of [p_read, p_write, p_publish, p_weather, p_hello] ''no filters applied'' 0)
   \<and> tools (result_of [p_read, p_write, p_publish, p_weather, p_hello] ''no filters applied'' 0)
     = parsedTools (filter_calls example_engine [all_messages two_messages])
   \<and> messagesProcessed
       (result_of [p_read, p_write, p_publish, p_weather, p_hello] ''no filters applied'' 0) = 0"
proof -
  let ?eng = "filter_calls example_engine [all_messages two_messages]"
  let ?r = "result_of [p_read, p_write, p_publish, p_weather, p_hello] ''no filters applied'' 0"
  have built: "fst (new_SkipTools yaml_example example_tools) = Inr example_engine"
    unfolding example_construction by (rule fst_conv)
  have state: "?eng = example_engine\<lparr>lastProcessedMessageCount := 2\<rparr>"
    by (simp add: filter_tools_state all_messages_def two_messages_def)
  have listed: "list_all keywords_listed (parsedTools ?eng)"
    using example_keywords_listed by (simp only: filter_calls_parsedTools)
  have none: "messages (only_new []) = []"
    by (simp add: only_new_def)
  have whole: "\<not> truncates (maxTools (only_new [])) (length (parsedTools ?eng))"
    by (simp add: only_new_def truncates_def)
  have returned: "snd (filter_tools ?eng (only_new [])) = Inr ?r"
    unfolding state example_filter_none by (rule snd_conv)
  from filter_returns [OF built refl, of "[all_messages two_messages]" "only_new []"]
    none whole returned
  have "tools ?r = parsedTools ?eng \<and> messagesProcessed ?r = 0"
    by auto
  with built listed none whole returned show ?thesis by blast
qed

text \<open>
  C4 as stated fails: with no message and \<open>maxTools = 2\<close>, the five tools of the example
  are cut to two.
\<close>

theorem empty_messages_truncated_counterexample:
  "fst (new_SkipTools yaml_example example_tools) = Inr example_engine
   \<and> messages (limited 2 []) = []
   \<and> snd (filter_tools example_engine (limited 2 []))
     = Inr (result_of [p_read, p_write] ''limited to 2 tools'' 0)
   \<and> tools (result_of [p_read, p_write] ''limited to 2 tools'' 0) \<noteq> parsedTools example_engine"
proof (intro conjI)
  show "fst (new_SkipTools yaml_example example_tools) = Inr example_engine"
    unfolding example_construction by (rule fst_conv)
  show "messages (limited 2 []) = []"
    by (simp add: limited_def)
  show "snd (filter_tools example_engine (limited 2 []))
        = Inr (result_of [p_read, p_write] ''limited to 2 tools'' 0)"
    unfolding example_filter_limited by (rule snd_conv)
  show "tools (result_of [p_read, p_write] ''limited to 2 tools'' 0) \<noteq> parsedTools example_engine"
    by (simp add: result_of_def example_engine_def)
qed


section \<open>A block that does not load\<close>

lemma parseToolDescription_failed:
  assumes "js_match SKIP_YAML_REGEX descr = Some (m0, Some doc)"
    and "load_fails yaml_load doc"
  shows "parseToolDescription yaml_load descr
         = \<lparr>clean = trim (removeFirst descr m0), skipConfig = JUndefined,
            warned = [''Failed to parse skip configuration: '' @ load_error yaml_load doc]\<rparr>"
  using assms
  by (auto simp: parseToolDescription_def parse_failed_def load_fails_def load_error_def Let_def
           split: sum.splits)

lemma tool_test_no_keywords:
  "\<not> truthy (get_prop (skip tool) ''keywords'') \<Longrightarrow> tool_test ql qws tool = Inr True"
  by (simp add: tool_test_def)

lemma filter_throwing_keeps:
  "filter_throwing p xs = Inr ys \<Longrightarrow> x \<in> set xs \<Longrightarrow> p x = Inr True \<Longrightarrow> x \<in> set ys"
  by (induction xs arbitrary: ys) (auto split: sum.splits if_splits)

lemma addDependencies_keeps:
  "addDependencies this fs = Inr ys \<Longrightarrow> x \<in> set fs \<Longrightarrow> x \<in> set (parsedTools this)
   \<Longrightarrow> x \<in> set ys"
  by (auto simp: addDependencies_def Let_def split: sum.splits)

lemma addDependencies_length:
  "addDependencies this fs = Inr ys \<Longrightarrow> length ys \<le> length (parsedTools this)"
  by (auto simp: addDependencies_def Let_def split: sum.splits)

lemma truncates_mono: "\<not> truncates mt n \<Longrightarrow> k \<le> n \<Longrightarrow> \<not> truncates mt k"
  by (auto simp: truncates_def split: option.splits)

lemma tool_without_keywords_kept:
  assumes member: "pt \<in> set (parsedTools this)"
    and none: "\<not> truthy (get_prop (skip pt) ''keywords'')"
    and returned: "snd (filter_tools this options) = Inr r"
    and whole: "\<not> truncates (maxTools options) (length (parsedTools this))"
  shows "pt \<in> set (tools r)"
proof -
  let ?q = "textContent (if onlyNew_of options
                         then drop (lastProcessedMessageCount this) (messages options)
                         else messages options)"
  from returned obtain matched expanded where
    matched: "(if ?q \<noteq> [] then filterByKeywords (parsedTools this) ?q
               else Inr (parsedTools this)) = Inr matched"
    and expanded: "addDependencies this matched = Inr expanded"
    and r: "tools r = limitTools (maxTools options) expanded"
    by (auto simp: filter_tools_result split: sum.splits)
  have "pt \<in> set matched"
  proof (cases "?q = []")
    case True
    with matched member show ?thesis by simp
  next
    case False
    with matched have "filterByKeywords (parsedTools this) ?q = Inr matched" by simp
    then show ?thesis
      unfolding filterByKeywords_def Let_def
      using member tool_test_no_keywords [OF none] by (rule filter_throwing_keeps)
  qed
  from expanded this member have "pt \<in> set expanded" by (rule addDependencies_keeps)
  moreover from whole addDependencies_length [OF expanded]
  have "\<not> truncates (maxTools options) (length expanded)" by (rule truncates_mono)
  ultimately show ?thesis by (simp add: r limitTools_whole)
qed

text \<open>
  C7, as the code has it. When the block of a description does not load, the parser
  writes the warning, removes the block from the clean description, and the parsed tool
  keeps the configuration given on the tool itself. When there is none, the parsed tool
  has no keyword and no dependency, and it is among the tools of every result \<open>filter\<close>
  returns that \<open>maxTools\<close> does not cut.
\<close>

theorem malformed_block_gives_no_configuration:
  assumes "js_match SKIP_YAML_REGEX (description tool) = Some (m0, Some doc)"
    and "load_fails yaml_load doc"
  shows "warned (parseToolDescription yaml_load (description tool))
           = [''Failed to parse skip configuration: '' @ load_error yaml_load doc]
         \<and> (tool \<in> set ts
              \<longrightarrow> ''Failed to parse skip configuration: '' @ load_error yaml_load doc
                    \<in> set (snd (parseTools yaml_load ts)))
         \<and> cleanDescription (parseTool yaml_load tool) = trim (removeFirst (description tool) m0)
         \<and> skip (parseTool yaml_load tool) = skip tool
         \<and> (skip tool = JUndefined
              \<longrightarrow> keyword_list (parseTool yaml_load tool) = []
                  \<and> dep_entries (parseTool yaml_load tool) = []
                  \<and> keywords_listed (parseTool yaml_load tool)
                  \<and> deps_listed (parseTool yaml_load tool)
                  \<and> (\<forall>this options r.
                        parseTool yaml_load tool \<in> set (parsedTools this)
                        \<and> snd (filter_tools this options) = Inr r
                        \<and> \<not> truncates (maxTools options) (length (parsedTools this))
                        \<longrightarrow> parseTool yaml_load tool \<in> set (tools r)))"
proof -
  note failed = parseToolDescription_failed [OF assms]
  have log: "warned (parseToolDescription yaml_load (description tool))
           = [''Failed to parse skip configuration: '' @ load_error yaml_load doc]"
    by (simp add: failed)
  have console: "tool \<in> set ts
              \<longrightarrow> ''Failed to parse skip configuration: '' @ load_error yaml_load doc
                    \<in> set (snd (parseTools yaml_load ts))"
    using log by (force simp: parseTools_def)
  have cleaned: "cleanDescription (parseTool yaml_load tool)
                 = trim (removeFirst (description tool) m0)"
    by (simp add: parseTool_def failed)
  have config: "skip (parseTool yaml_load tool) = skip tool"
    by (simp add: parseTool_def failed)
  have absent: "skip tool = JUndefined
              \<longrightarrow> keyword_list (parseTool yaml_load tool) = []
                  \<and> dep_entries (parseTool yaml_load tool) = []
                  \<and> keywords_listed (parseTool yaml_load tool)
                  \<and> deps_listed (parseTool yaml_load tool)
                  \<and> (\<forall>this options r.
                        parseTool yaml_load tool \<in> set (parsedTools this)
                        \<and> snd (filter_tools this options) = Inr r
                        \<and> \<not> truncates (maxTools options) (length (parsedTools this))
                        \<longrightarrow> parseTool yaml_load tool \<in> set (tools r))"
  proof
    assume none: "skip tool = JUndefined"
    with config have undef: "skip (parseTool yaml_load tool) = JUndefined" by simp
    then have falsy: "\<not> truthy (get_prop (skip (parseTool yaml_load tool)) ''keywords'')"
      by simp
    from undef have shape:
      "keyword_list (parseTool yaml_load tool) = []"
      "dep_entries (parseTool yaml_load tool) = []"
      "keywords_listed (parseTool yaml_load tool)"
      "deps_listed (parseTool yaml_load tool)"
      by (simp_all add: keyword_list_def dep_entries_def keywords_listed_def deps_listed_def)
    have "\<forall>this options r.
            parseTool yaml_load tool \<in> set (parsedTools this)
            \<and> snd (filter_tools this options) = Inr r
            \<and> \<not> truncates (maxTools options) (length (parsedTools this))
            \<longrightarrow> parseTool yaml_load tool \<in> set (tools r)"
      using tool_without_keywords_kept [OF _ falsy] by blast
    with shape show "keyword_list (parseTool yaml_load tool) = []
                  \<and> dep_entries (parseTool yaml_load tool) = []
                  \<and> keywords_listed (parseTool yaml_load tool)
                  \<and> deps_listed (parseTool yaml_load tool)
                  \<and> (\<forall>this options r.
                        parseTool yaml_load tool \<in> set (parsedTools this)
                        \<and> snd (filter_tools this options) = Inr r
                        \<and> \<not> truncates (maxTools options) (length (parsedTools this))
                        \<longrightarrow> parseTool yaml_load tool \<in> set (tools r))"
      by blast
  qed
  from log console cleaned config absent show ?thesis by blast
qed

theorem malformed_block_gives_no_configuration_witness:
  "js_match SKIP_YAML_REGEX (description unlabelled) = Some (text_block, Some ''  just some text'')
   \<and> load_fails yaml_example ''  just some text''
   \<and> warned (parseToolDescription yaml_example (description unlabelled)) = [parse_warning]
   \<and> parse_warning \<in> set (snd (parseTools yaml_example [read_file, unlabelled]))
   \<and> cleanDescription (parseTool yaml_example unlabelled) = ''Has no label.''
   \<and> skip (parseTool yaml_example unlabelled) = JUndefined
   \<and> snd (filter_tools (engine_of [p_read, p_unlabelled]) (all_messages [user_says ''weather'']))
     = Inr (result_from 2 [p_unlabelled]
              ''filtered by keywords from 1 all messages, dependencies added'' 1)
   \<and> parseTool yaml_example unlabelled
     \<in> set (tools (result_from 2 [p_unlabelled]
                     ''filtered by keywords from 1 all messages, dependencies added'' 1))"
proof -
  let ?eng = "engine_of [p_read, p_unlabelled]"
  let ?options = "all_messages [user_says ''weather'']"
  let ?r = "result_from 2 [p_unlabelled]
              ''filtered by keywords from 1 all messages, dependencies added'' 1"
  note facts = malformed_block_gives_no_configuration
                 [OF example_match_unlabelled example_load_fails, of "[read_file, unlabelled]"]
  have direct: "skip unlabelled = JUndefined"
    by (simp add: unlabelled_def)
  have member: "parseTool yaml_example unlabelled \<in> set (parsedTools ?eng)"
    by (simp add: example_parse_unlabelled engine_of_def)
  have returned: "snd (filter_tools ?eng ?options) = Inr ?r"
    unfolding example_filter_unlabelled by (rule snd_conv)
  have whole: "\<not> truncates (maxTools ?options) (length (parsedTools ?eng))"
    by (simp add: all_messages_def truncates_def)
  from facts have "warned (parseToolDescription yaml_example (description unlabelled))
                   = [parse_warning]"
    by (simp only: example_load_error)
  moreover from facts have "parse_warning \<in> set (snd (parseTools yaml_example [read_file, unlabelled]))"
    by (simp only: example_load_error) simp
  moreover from facts have "cleanDescription (parseTool yaml_example unlabelled) = ''Has no label.''"
    by (simp only: example_clean_unlabelled)
  moreover from facts direct have "skip (parseTool yaml_example unlabelled) = JUndefined"
    by simp
  moreover from facts direct member returned whole
  have "parseTool yaml_example unlabelled \<in> set (tools ?r)"
    by blast
  ultimately show ?thesis
    using example_match_unlabelled example_load_fails returned by blast
qed

text \<open>
  C7 as stated fails: a tool with a block that does not load and a configuration of its
  own keeps that configuration, and a query that matches none of its keywords leaves it
  out.
\<close>

theorem malformed_block_with_direct_configuration_counterexample:
  "js_match SKIP_YAML_REGEX (description labelled) = Some (text_block, Some ''  just some text'')
   \<and> load_fails yaml_example ''  just some text''
   \<and> new_SkipTools yaml_example [read_file, labelled]
     = (Inr (engine_of [p_read, p_labelled]), [parse_warning])
   \<and> skip p_labelled = JObj [(''keywords'', JArr [JStr ''label''])]
   \<and> snd (filter_tools (engine_of [p_read, p_labelled]) (all_messages [user_says ''weather'']))
     = Inr (result_from 2 [] ''filtered by keywords from 1 all messages, dependencies added'' 1)
   \<and> p_labelled
     \<notin> set (tools (result_from 2 []
                     ''filtered by keywords from 1 all messages, dependencies added'' 1))"
proof (intro conjI)
  show "js_match SKIP_YAML_REGEX (description labelled)
        = Some (text_block, Some ''  just some text'')"
    by (rule example_match_labelled)
  show "load_fails yaml_example ''  just some text''"
    by (rule example_load_fails)
  show "new_SkipTools yaml_example [read_file, labelled]
        = (Inr (engine_of [p_read, p_labelled]), [parse_warning])"
    by (rule example_labelled)
  show "skip p_labelled = JObj [(''keywords'', JArr [JStr ''label''])]"
    by (simp add: p_labelled_def parsed_def)
  show "snd (filter_tools (engine_of [p_read, p_labelled]) (all_messages [user_says ''weather'']))
        = Inr (result_from 2 [] ''filtered by keywords from 1 all messages, dependencies added'' 1)"
    unfolding example_filter_labelled by (rule snd_conv)
  show "p_labelled
        \<notin> set (tools (result_from 2 []
                        ''filtered by keywords from 1 all messages, dependencies added'' 1))"
    by (simp add: result_from_def)
qed


section \<open>A configuration of the wrong shape\<close>

lemma tool_test_not_a_list:
  assumes "get_prop (skip tool) ''keywords'' = kws" and "truthy kws"
    and "get_prop kws ''length'' \<noteq> JNum 0" and "\<not> (\<exists>ks. kws = JArr ks)"
  shows "tool_test ql qws tool = Inl TypeError"
  using assms by (cases kws) (auto simp: tool_test_def)

lemma check_tool_not_a_list:
  assumes "get_prop (skip tool) ''depends_on'' = d" and "truthy d" and "\<not> (\<exists>ds. d = JArr ds)"
  shows "check_tool names tool = Inl TypeError"
  using assms by (cases d) (auto simp: check_tool_def)

lemma validateSkipConfig_rejects:
  assumes "truthy (get_prop config ''keywords'')" and "\<not> (\<exists>ks. get_prop config ''keywords'' = JArr ks)"
  shows "\<not> validateSkipConfig config"
  using assms by (cases "get_prop config ''keywords''") (auto simp: validateSkipConfig_def)

text \<open>
  C8. A block that gives \<open>keywords\<close> as a string is accepted by the parser and by the
  constructor, and \<open>validateSkipConfig\<close> rejects it, but nothing calls
  \<open>validateSkipConfig\<close>: the first \<open>filter\<close> with a query throws a TypeError instead of
  treating the configuration as absent. A \<open>depends_on\<close> given as a string makes the
  constructor throw a TypeError.
\<close>

theorem keywords_not_a_list_throws:
  "new_SkipTools yaml_example [read_file, sloppy] = (Inr (engine_of [p_read, p_sloppy]), [])
   \<and> skip p_sloppy = JObj [(''keywords'', JStr ''read'')]
   \<and> \<not> validateSkipConfig (skip p_sloppy)
   \<and> snd (filter_tools (engine_of [p_read, p_sloppy]) (all_messages [user_says ''hello there'']))
     = Inl TypeError
   \<and> new_SkipTools yaml_example [read_file, needy] = (Inl TypeError, [])"
proof (intro conjI)
  show "new_SkipTools yaml_example [read_file, sloppy] = (Inr (engine_of [p_read, p_sloppy]), [])"
    by (rule example_sloppy)
  show "skip p_sloppy = JObj [(''keywords'', JStr ''read'')]"
    by (simp add: p_sloppy_def parsed_def)
  show "\<not> validateSkipConfig (skip p_sloppy)"
    by (rule example_sloppy_invalid)
  show "snd (filter_tools (engine_of [p_read, p_sloppy]) (all_messages [user_says ''hello there'']))
        = Inl TypeError"
    unfolding example_filter_sloppy by (rule snd_conv)
  show "new_SkipTools yaml_example [read_file, needy] = (Inl TypeError, [])"
    by (rule example_needy)
qed


end
